theory Spec2Isabelle
  imports Main
begin

section \<open>The generation driver \<^verbatim>\<open>gtl/generate_randomized_freepool.py\<close>\<close>

text \<open>
  The driver is one Python function, \<^verbatim>\<open>main\<close>. It scans the command line, raises when
  a required flag is not set, runs the template engine \<^verbatim>\<open>generate.py\<close> twice as a child
  process and then writes two fixed files. Python strings are modelled as \<^typ>\<open>string\<close>,
  \<^verbatim>\<open>None\<close> as \<^term>\<open>None\<close>, an exception as the left summand of the result, and
  every effect on the outside world as an entry of a trace. Paths are those of a POSIX
  system, where \<^verbatim>\<open>os.path\<close> is \<^verbatim>\<open>posixpath\<close> and the separator is the slash.
\<close>

subsection \<open>Library functions the driver calls\<close>

definition nl :: char where
  \<open>nl = CHR 0x0A\<close>

text \<open>\<^verbatim>\<open>s.startswith(p)\<close>.\<close>

definition startswith :: \<open>string \<Rightarrow> string \<Rightarrow> bool\<close> where
  \<open>startswith s p = (take (length p) s = p)\<close>

text \<open>\<^verbatim>\<open>s.endswith(p)\<close>.\<close>

definition endswith :: \<open>string \<Rightarrow> string \<Rightarrow> bool\<close> where
  \<open>endswith s p = (length p \<le> length s \<and> drop (length s - length p) s = p)\<close>

text \<open>
  \<^verbatim>\<open>re.match("^" + flag + "(.*)", arg)\<close> for a \<^verbatim>\<open>flag\<close> without regular-expression
  operators, as \<^verbatim>\<open>--package=\<close> and \<^verbatim>\<open>--output=\<close> are: the result is \<^verbatim>\<open>None\<close> when
  \<^verbatim>\<open>arg\<close> does not start with the flag and group 1 of the match otherwise. The dot of a
  Python pattern matches every character but the newline, so the group ends before the first
  newline of the rest.
\<close>

definition re_match :: \<open>string \<Rightarrow> string \<Rightarrow> string option\<close> where
  \<open>re_match flag arg =
     (if startswith arg flag
      then Some (takeWhile (\<lambda>c. c \<noteq> nl) (drop (length flag) arg))
      else None)\<close>

text \<open>
  \<^verbatim>\<open>p.rfind(c)\<close>: the greatest index of \<^verbatim>\<open>c\<close> in \<^verbatim>\<open>p\<close>, or \<^verbatim>\<open>-1\<close>.
\<close>

definition rfind :: \<open>string \<Rightarrow> char \<Rightarrow> int\<close> where
  \<open>rfind p c =
     (if c \<in> set p
      then int (length p) - 1 - int (length (takeWhile (\<lambda>x. x \<noteq> c) (rev p)))
      else - 1)\<close>

text \<open>\<^verbatim>\<open>head.rstrip("/")\<close>.\<close>

definition rstrip_sep :: \<open>string \<Rightarrow> string\<close> where
  \<open>rstrip_sep s = rev (dropWhile (\<lambda>c. c = CHR ''/'') (rev s))\<close>

text \<open>
  \<^verbatim>\<open>os.path.dirname\<close> of \<^verbatim>\<open>posixpath\<close>:
  \<^verbatim>\<open>
    i = p.rfind(sep) + 1
    head = p[:i]
    if head and head != sep*len(head):
        head = head.rstrip(sep)
    return head
  \<close>
\<close>

definition dirname :: \<open>string \<Rightarrow> string\<close> where
  \<open>dirname p =
     (let i = rfind p (CHR ''/'') + 1;
          head = take (nat i) p
      in if head \<noteq> [] \<and> head \<noteq> replicate (length head) (CHR ''/'')
         then rstrip_sep head
         else head)\<close>

text \<open>
  \<^verbatim>\<open>os.path.join(a, b)\<close> of \<^verbatim>\<open>posixpath\<close>, for two arguments:
  \<^verbatim>\<open>
    if b.startswith(sep): path = b
    elif not path or path.endswith(sep): path += b
    else: path += sep + b
  \<close>
\<close>

definition join :: \<open>string \<Rightarrow> string \<Rightarrow> string\<close> where
  \<open>join a b =
     (if startswith b ''/'' then b
      else if a = [] \<or> endswith a ''/'' then a @ b
      else a @ ''/'' @ b)\<close>

text \<open>The text of a triple-quoted literal whose every line ends with a newline.\<close>

definition unlines :: \<open>string list \<Rightarrow> string\<close> where
  \<open>unlines ls = concat (map (\<lambda>l. l @ [nl]) ls)\<close>

subsection \<open>The outside world\<close>

text \<open>
  What \<^verbatim>\<open>main\<close> reads from its process and what the operating system answers:
  \<^verbatim>\<open>sys.executable\<close>, the exit status of a child process given its command line, and
  whether \<^verbatim>\<open>open(path, "w")\<close> succeeds.
\<close>

record env =
  executable :: string
  returncode :: \<open>string list \<Rightarrow> int\<close>
  can_open :: \<open>string \<Rightarrow> bool\<close>

text \<open>
  The exceptions that can leave \<^verbatim>\<open>main\<close>: the explicit \<^verbatim>\<open>raise Exception(...)\<close>, the
  \<^verbatim>\<open>CalledProcessError\<close> of \<^verbatim>\<open>subprocess.check_call\<close> (with the exit status and the
  command), the \<^verbatim>\<open>OSError\<close> of \<^verbatim>\<open>open\<close>, and the \<^verbatim>\<open>IndexError\<close> of \<^verbatim>\<open>sys.argv[0]\<close>.
\<close>

datatype error =
    Exception string
  | CalledProcessError int \<open>string list\<close>
  | OSError string
  | IndexError

text \<open>
  The effects, in the order they happen: a record logged by \<^verbatim>\<open>logging.debug\<close>, a child
  process run by \<^verbatim>\<open>subprocess.check_call\<close>, a file opened for writing and filled.
\<close>

datatype event =
    Debug \<open>string list\<close>
  | CheckCall \<open>string list\<close>
  | WriteFile string string

type_synonym outcome = \<open>(error + unit) \<times> event list\<close>

text \<open>
  \<^verbatim>\<open>subprocess.check_call(cmd)\<close> runs the command and raises when its exit status is not
  zero.
\<close>

definition check_call :: \<open>env \<Rightarrow> string list \<Rightarrow> event list \<Rightarrow> outcome\<close> where
  \<open>check_call e cmd tr =
     (if returncode e cmd = 0
      then (Inr (), tr @ [CheckCall cmd])
      else (Inl (CalledProcessError (returncode e cmd) cmd), tr @ [CheckCall cmd]))\<close>

text \<open>\<^verbatim>\<open>with open(path, "w") as fd: fd.write(text)\<close>.\<close>

definition write_file :: \<open>env \<Rightarrow> string \<Rightarrow> string \<Rightarrow> event list \<Rightarrow> outcome\<close> where
  \<open>write_file e path txt tr =
     (if can_open e path
      then (Inr (), tr @ [WriteFile path txt])
      else (Inl (OSError path), tr))\<close>

text \<open>Sequencing of statements: an exception skips everything after it.\<close>

definition and_then :: \<open>outcome \<Rightarrow> (event list \<Rightarrow> outcome) \<Rightarrow> outcome\<close> where
  \<open>and_then r f = (case r of (Inl err, tr) \<Rightarrow> (Inl err, tr) | (Inr _, tr) \<Rightarrow> f tr)\<close>

subsection \<open>The argument loop\<close>

text \<open>The three local variables the loop assigns.\<close>

record locals =
  package :: \<open>string option\<close>
  "output" :: \<open>string option\<close>
  generate_argv :: \<open>string list\<close>

text \<open>
  One iteration:
  \<^verbatim>\<open>
    m = re.match("^--package=(.*)", arg)
    if m:
        package = m[1]
    m = re.match("^--output=(.*)", arg)
    if m:
        output = m[1]
    else:
        generate_argv.append(arg)
  \<close>
  The \<^verbatim>\<open>else\<close> belongs to the second \<^verbatim>\<open>if\<close> only.
\<close>

definition loop_body :: \<open>string \<Rightarrow> locals \<Rightarrow> locals\<close> where
  \<open>loop_body arg s =
     (let s1 = (case re_match ''--package='' arg of
                  Some v \<Rightarrow> s\<lparr>package := Some v\<rparr>
                | None \<Rightarrow> s)
      in case re_match ''--output='' arg of
           Some v \<Rightarrow> s1\<lparr>output := Some v\<rparr>
         | None \<Rightarrow> s1\<lparr>generate_argv := generate_argv s1 @ [arg]\<rparr>)\<close>

fun for_loop :: \<open>string list \<Rightarrow> locals \<Rightarrow> locals\<close> where
  \<open>for_loop [] s = s\<close>
| \<open>for_loop (arg # args) s = for_loop args (loop_body arg s)\<close>

definition initial_locals :: locals where
  \<open>initial_locals = \<lparr>package = None, output = None, generate_argv = []\<rparr>\<close>

text \<open>\<^verbatim>\<open>not v\<close> for a variable that holds \<^verbatim>\<open>None\<close> or a string.\<close>

definition falsy :: \<open>string option \<Rightarrow> bool\<close> where
  \<open>falsy v = (case v of None \<Rightarrow> True | Some s \<Rightarrow> s = [])\<close>

subsection \<open>The files the driver writes itself\<close>

definition stub_text :: string where
  \<open>stub_text = unlines
    [''// Code generated by generate_randomized_freepool.py. DO NOT EDIT.'',
     '''',
     ''// Dummy file to force the go compiler to honor go:linkname directives. See'',
     ''//'',
     ''// https://github.com/golang/go/issues/15006'',
     ''// http://www.alangpierce.com/blog/2016/03/17/adventures-in-go-accessing-unexported-functions/'']\<close>

definition glue_body :: \<open>string list\<close> where
  \<open>glue_body =
    ['''',
     ''// This import is needed to use go:linkname.'',
     ''import _ "unsafe"'',
     '''',
     ''// The following functions are defined in go runtime.  To use them, we need to'',
     ''// import "unsafe", and elsewhere in this package, import "C" to force compiler'',
     ''// to recognize the "go:linktime" directive. Some of the details are explained'',
     ''// in the below blog post.'',
     ''//'',
     ''// procPin() pins the caller to the current processor, and returns the processor'',
     ''// id in range [0,GOMAXPROCS). procUnpin() undos the effect of procPin().'',
     ''//'',
     ''// http://www.alangpierce.com/blog/2016/03/17/adventures-in-go-accessing-unexported-functions/'',
     '''',
     ''//go:linkname runtime_procPin sync.runtime_procPin'',
     ''//go:nosplit'',
     ''func runtime_procPin() int'',
     '''',
     ''//go:linkname runtime_procUnpin sync.runtime_procUnpin'',
     ''//go:nosplit'',
     ''func runtime_procUnpin()'',
     '''',
     ''//go:linkname fastrandn sync.fastrandn'',
     ''func fastrandn(n uint32) uint32'']\<close>

text \<open>The f-string of the second file: only its second line depends on \<^verbatim>\<open>package\<close>.\<close>

definition glue_text :: \<open>string \<Rightarrow> string\<close> where
  \<open>glue_text pkg = unlines
    (''// Code generated by generate_randomized_freepool.py. DO NOT EDIT.''
     # (''package '' @ pkg)
     # glue_body)\<close>

subsection \<open>\<^verbatim>\<open>main\<close>\<close>

text \<open>
  The command line of one engine run:
  \<^verbatim>\<open>[sys.executable, os.path.join(gtl_dir, "generate.py"), f"--output={output}<suffix>"]
     + generate_argv + [os.path.join(gtl_dir, <template>)]\<close>.
\<close>

definition cmdline :: \<open>env \<Rightarrow> string \<Rightarrow> string \<Rightarrow> string list \<Rightarrow> string \<Rightarrow> string list\<close> where
  \<open>cmdline e gtl_dir out_file gen_argv template =
     [executable e, join gtl_dir ''generate.py'', ''--output='' @ out_file]
     @ gen_argv
     @ [join gtl_dir template]\<close>

text \<open>
  \<^verbatim>\<open>
    output_dir = os.path.dirname(output)
    if not output_dir:
        output_dir = "."
  \<close>
\<close>

definition output_dir :: \<open>string \<Rightarrow> string\<close> where
  \<open>output_dir out = (if dirname out = [] then ''.'' else dirname out)\<close>

text \<open>
  The statements after the check of the two flags. The command line is built a first time
  for the log record and then again, from the same expressions, for each call.
\<close>

definition generate :: \<open>env \<Rightarrow> string \<Rightarrow> string \<Rightarrow> string \<Rightarrow> string list \<Rightarrow> outcome\<close> where
  \<open>generate e argv0 out pkg gen_argv =
     (let gtl_dir = dirname argv0;
          cmd1 = cmdline e gtl_dir (out @ ''.go'') gen_argv ''randomized_freepool.go.tpl'';
          cmd2 = cmdline e gtl_dir (out @ ''_race.go'') gen_argv ''randomized_freepool_race.go.tpl''
      in and_then (check_call e cmd1 [Debug cmd1]) (\<lambda>tr.
         and_then (check_call e cmd2 tr) (\<lambda>tr.
         and_then (write_file e (output_dir out @ ''/randomized_freepool_internal.s'') stub_text tr) (\<lambda>tr.
         write_file e (output_dir out @ ''/randomized_freepool_internal.go'') (glue_text pkg) tr))))\<close>

text \<open>
  \<^verbatim>\<open>main\<close>, given \<^verbatim>\<open>sys.argv\<close>. The loop runs over \<^verbatim>\<open>sys.argv[1:]\<close>; nothing has
  happened yet when the exception of the flag check is raised.
\<close>

definition main :: \<open>env \<Rightarrow> string list \<Rightarrow> outcome\<close> where
  \<open>main e sys_argv =
     (let s = for_loop (drop 1 sys_argv) initial_locals
      in if falsy (output s) \<or> falsy (package s)
         then (Inl (Exception ''--output and --package not set''), [])
         else (case (sys_argv, output s, package s) of
                 (argv0 # _, Some out, Some pkg) \<Rightarrow> generate e argv0 out pkg (generate_argv s)
               | _ \<Rightarrow> (Inl IndexError, [])))\<close>

section \<open>Notions the properties are stated with\<close>

subsection \<open>Reading a trace\<close>

text \<open>The command lines run by \<^verbatim>\<open>subprocess.check_call\<close>, in order.\<close>

fun calls :: \<open>event list \<Rightarrow> string list list\<close> where
  \<open>calls [] = []\<close>
| \<open>calls (CheckCall cmd # tr) = cmd # calls tr\<close>
| \<open>calls (Debug _ # tr) = calls tr\<close>
| \<open>calls (WriteFile _ _ # tr) = calls tr\<close>

text \<open>The files written by the driver itself, each with its text, in order.\<close>

fun writes :: \<open>event list \<Rightarrow> (string \<times> string) list\<close> where
  \<open>writes [] = []\<close>
| \<open>writes (WriteFile path txt # tr) = (path, txt) # writes tr\<close>
| \<open>writes (Debug _ # tr) = writes tr\<close>
| \<open>writes (CheckCall _ # tr) = writes tr\<close>



subsection \<open>Flags on the command line\<close>

text \<open>
  The value a flag is given by an argument list: none when no argument starts with the flag,
  and otherwise what the pattern captures from the last argument that does, which is the
  text after the flag up to the first newline.
\<close>

definition supplied :: \<open>string \<Rightarrow> string list \<Rightarrow> string option\<close> where
  \<open>supplied flag args =
     (case rev (filter (\<lambda>a. startswith a flag) args) of
        [] \<Rightarrow> None
      | a # _ \<Rightarrow> re_match flag a)\<close>

text \<open>The arguments that are not \<^verbatim>\<open>--output=\<close> flags, in their order.\<close>

definition forwarded :: \<open>string list \<Rightarrow> string list\<close> where
  \<open>forwarded args = filter (\<lambda>a. \<not> startswith a ''--output='') args\<close>

subsection \<open>Lines and directories\<close>

text \<open>\<^verbatim>\<open>s.split(c)\<close> for a separator of one character.\<close>

fun split_on :: \<open>char \<Rightarrow> string \<Rightarrow> string list\<close> where
  \<open>split_on c [] = [[]]\<close>
| \<open>split_on c (x # xs) =
     (if x = c then [] # split_on c xs
      else (case split_on c xs of
              [] \<Rightarrow> [[x]]
            | l # ls \<Rightarrow> (x # l) # ls))\<close>

definition lines_of :: \<open>string \<Rightarrow> string list\<close> where
  \<open>lines_of txt = split_on nl txt\<close>

text \<open>
  The directory in which the path resolution of the operating system looks up the last
  component of a path: whether the walk starts at the root or at the working directory,
  and the names it enters one after the other. An empty component (a repeated or trailing
  slash) and the component \<^verbatim>\<open>.\<close> enter nothing. Two paths with the same walk name files of
  the same directory, however the paths are spelled.
\<close>

definition directory_of :: \<open>string \<Rightarrow> bool \<times> string list\<close> where
  \<open>directory_of path =
     (startswith path ''/'',
      filter (\<lambda>n. n \<noteq> [] \<and> n \<noteq> ''.'') (butlast (split_on (CHR ''/'') path)))\<close>


subsection \<open>Sample environments\<close>

text \<open>Every child process exits with status zero and every file can be opened.\<close>

definition env_ok :: env where
  \<open>env_ok = \<lparr>executable = ''python3'', returncode = (\<lambda>_. 0), can_open = (\<lambda>_. True)\<rparr>\<close>

text \<open>Every child process exits with status one.\<close>

definition env_first_fails :: env where
  \<open>env_first_fails = \<lparr>executable = ''python3'', returncode = (\<lambda>_. 1), can_open = (\<lambda>_. True)\<rparr>\<close>

text \<open>The expansion of the race template exits with status two, every other one with zero.\<close>

definition env_second_fails :: env where
  \<open>env_second_fails =
     \<lparr>executable = ''python3'',
      returncode = (\<lambda>cmd. if last cmd = ''gtl/randomized_freepool_race.go.tpl'' then 2 else 0),
      can_open = (\<lambda>_. True)\<rparr>\<close>

section \<open>Facts about the model\<close>

subsection \<open>The loop computes the last value of each flag\<close>

lemma for_loop_append: \<open>for_loop (xs @ ys) s = for_loop ys (for_loop xs s)\<close>
  by (induction xs arbitrary: s) simp_all

lemma supplied_snoc:
  \<open>supplied flag (xs @ [a]) = (if startswith a flag then re_match flag a else supplied flag xs)\<close>
  by (simp add: supplied_def)

lemma supplied_None_iff:
  \<open>supplied flag args = None \<longleftrightarrow> (\<forall>a\<in>set args. \<not> startswith a flag)\<close>
proof (induction args rule: rev_induct)
  case Nil
  show ?case by (simp add: supplied_def)
next
  case (snoc a args)
  then show ?case by (auto simp: supplied_snoc re_match_def)
qed

lemma supplied_no_newline: \<open>supplied flag args = Some v \<Longrightarrow> nl \<notin> set v\<close>
proof (induction args rule: rev_induct)
  case Nil
  then show ?case by (simp add: supplied_def)
next
  case (snoc a args)
  then show ?case
    by (auto simp: supplied_snoc re_match_def split: if_splits dest: set_takeWhileD)
qed

lemma for_loop_package:
  \<open>package (for_loop args s) =
     (case supplied ''--package='' args of None \<Rightarrow> package s | Some v \<Rightarrow> Some v)\<close>
proof (induction args rule: rev_induct)
  case Nil
  show ?case by (simp add: supplied_def)
next
  case (snoc a args)
  show ?case
  proof (cases \<open>startswith a ''--package=''\<close>)
    case True
    then obtain v where v: \<open>re_match ''--package='' a = Some v\<close>
      by (simp add: re_match_def)
    with True show ?thesis
      by (simp add: for_loop_append supplied_snoc loop_body_def Let_def split: option.splits)
  next
    case False
    then have \<open>re_match ''--package='' a = None\<close>
      by (simp add: re_match_def)
    with False snoc show ?thesis
      by (simp add: for_loop_append supplied_snoc loop_body_def Let_def split: option.splits)
  qed
qed

lemma for_loop_output:
  \<open>output (for_loop args s) =
     (case supplied ''--output='' args of None \<Rightarrow> output s | Some v \<Rightarrow> Some v)\<close>
proof (induction args rule: rev_induct)
  case Nil
  show ?case by (simp add: supplied_def)
next
  case (snoc a args)
  show ?case
  proof (cases \<open>startswith a ''--output=''\<close>)
    case True
    then obtain v where v: \<open>re_match ''--output='' a = Some v\<close>
      by (simp add: re_match_def)
    with True show ?thesis
      by (simp add: for_loop_append supplied_snoc loop_body_def Let_def split: option.splits)
  next
    case False
    then have \<open>re_match ''--output='' a = None\<close>
      by (simp add: re_match_def)
    with False snoc show ?thesis
      by (simp add: for_loop_append supplied_snoc loop_body_def Let_def split: option.splits)
  qed
qed

lemma for_loop_generate_argv:
  \<open>generate_argv (for_loop args s) = generate_argv s @ forwarded args\<close>
proof (induction args arbitrary: s)
  case Nil
  show ?case by (simp add: forwarded_def)
next
  case (Cons a args)
  show ?case
    by (simp add: Cons.IH forwarded_def loop_body_def Let_def re_match_def split: option.splits)
qed

lemma parsed_package: \<open>package (for_loop args initial_locals) = supplied ''--package='' args\<close>
  by (simp add: for_loop_package initial_locals_def split: option.splits)

lemma parsed_output: \<open>output (for_loop args initial_locals) = supplied ''--output='' args\<close>
  by (simp add: for_loop_output initial_locals_def split: option.splits)

lemma parsed_generate_argv: \<open>generate_argv (for_loop args initial_locals) = forwarded args\<close>
  by (simp add: for_loop_generate_argv initial_locals_def)

subsection \<open>The two ways through \<^verbatim>\<open>main\<close>\<close>

lemma main_unset:
  \<open>falsy (supplied ''--output='' (drop 1 sys_argv)) \<or> falsy (supplied ''--package='' (drop 1 sys_argv))
   \<Longrightarrow> main e sys_argv = (Inl (Exception ''--output and --package not set''), [])\<close>
  by (simp add: main_def Let_def parsed_package parsed_output)

lemma main_set:
  assumes \<open>supplied ''--output='' args = Some out\<close> \<open>out \<noteq> []\<close>
    and \<open>supplied ''--package='' args = Some pkg\<close> \<open>pkg \<noteq> []\<close>
  shows \<open>main e (argv0 # args) = generate e argv0 out pkg (forwarded args)\<close>
  using assms by (simp add: main_def Let_def parsed_package parsed_output parsed_generate_argv falsy_def)

lemma main_cases:
  obtains (unset) \<open>main e sys_argv = (Inl (Exception ''--output and --package not set''), [])\<close>
  | (set) argv0 args out pkg where \<open>sys_argv = argv0 # args\<close>
      \<open>supplied ''--output='' args = Some out\<close> \<open>out \<noteq> []\<close>
      \<open>supplied ''--package='' args = Some pkg\<close> \<open>pkg \<noteq> []\<close>
      \<open>main e sys_argv = generate e argv0 out pkg (forwarded args)\<close>
proof (cases \<open>falsy (supplied ''--output='' (drop 1 sys_argv)) \<or> falsy (supplied ''--package='' (drop 1 sys_argv))\<close>)
  case True
  then show ?thesis using unset main_unset by blast
next
  case False
  then obtain out pkg where op: \<open>supplied ''--output='' (drop 1 sys_argv) = Some out\<close> \<open>out \<noteq> []\<close>
      \<open>supplied ''--package='' (drop 1 sys_argv) = Some pkg\<close> \<open>pkg \<noteq> []\<close>
    by (auto simp: falsy_def split: option.splits)
  have \<open>sys_argv \<noteq> []\<close>
    using op(1) by (auto simp: supplied_def)
  then obtain argv0 args where sa: \<open>sys_argv = argv0 # args\<close>
    by (cases sys_argv) auto
  with op main_set[of args out pkg e argv0] show ?thesis
    using set by simp
qed

subsection \<open>The traces of \<^verbatim>\<open>generate\<close>\<close>

lemma generate_first_fails:
  assumes \<open>returncode e (cmdline e (dirname argv0) (out @ ''.go'') ga ''randomized_freepool.go.tpl'') \<noteq> 0\<close>
  shows \<open>generate e argv0 out pkg ga =
    (Inl (CalledProcessError
        (returncode e (cmdline e (dirname argv0) (out @ ''.go'') ga ''randomized_freepool.go.tpl''))
        (cmdline e (dirname argv0) (out @ ''.go'') ga ''randomized_freepool.go.tpl'')),
     [Debug (cmdline e (dirname argv0) (out @ ''.go'') ga ''randomized_freepool.go.tpl''),
      CheckCall (cmdline e (dirname argv0) (out @ ''.go'') ga ''randomized_freepool.go.tpl'')])\<close>
  using assms by (simp add: generate_def Let_def and_then_def check_call_def)

lemma generate_second_fails:
  assumes \<open>returncode e (cmdline e (dirname argv0) (out @ ''.go'') ga ''randomized_freepool.go.tpl'') = 0\<close>
    and \<open>returncode e (cmdline e (dirname argv0) (out @ ''_race.go'') ga ''randomized_freepool_race.go.tpl'') \<noteq> 0\<close>
  shows \<open>generate e argv0 out pkg ga =
    (Inl (CalledProcessError
        (returncode e (cmdline e (dirname argv0) (out @ ''_race.go'') ga ''randomized_freepool_race.go.tpl''))
        (cmdline e (dirname argv0) (out @ ''_race.go'') ga ''randomized_freepool_race.go.tpl'')),
     [Debug (cmdline e (dirname argv0) (out @ ''.go'') ga ''randomized_freepool.go.tpl''),
      CheckCall (cmdline e (dirname argv0) (out @ ''.go'') ga ''randomized_freepool.go.tpl''),
      CheckCall (cmdline e (dirname argv0) (out @ ''_race.go'') ga ''randomized_freepool_race.go.tpl'')])\<close>
  using assms by (simp add: generate_def Let_def and_then_def check_call_def)

lemma generate_calls:
  \<open>calls (snd (generate e argv0 out pkg ga)) =
     (if returncode e (cmdline e (dirname argv0) (out @ ''.go'') ga ''randomized_freepool.go.tpl'') = 0
      then [cmdline e (dirname argv0) (out @ ''.go'') ga ''randomized_freepool.go.tpl'',
            cmdline e (dirname argv0) (out @ ''_race.go'') ga ''randomized_freepool_race.go.tpl'']
      else [cmdline e (dirname argv0) (out @ ''.go'') ga ''randomized_freepool.go.tpl''])\<close>
  by (simp add: generate_def Let_def and_then_def check_call_def write_file_def)

lemma generate_writes:
  \<open>(p, t) \<in> set (writes (snd (generate e argv0 out pkg ga))) \<Longrightarrow>
     (p = output_dir out @ ''/randomized_freepool_internal.s'' \<and> t = stub_text) \<or>
     (p = output_dir out @ ''/randomized_freepool_internal.go'' \<and> t = glue_text pkg)\<close>
  by (auto simp: generate_def Let_def and_then_def check_call_def write_file_def split: if_splits)


section \<open>The flag check\<close>

text \<open>
  Claim C1. When the \<^verbatim>\<open>--package\<close> flag or the \<^verbatim>\<open>--output\<close> flag is missing from the
  arguments, or the value it is given is empty, \<^verbatim>\<open>main\<close> raises its configuration error
  and the trace is empty: no template expansion has been run and no file has been written.
\<close>

theorem missing_flag_raises_before_any_effect:
  assumes \<open>(\<forall>a\<in>set (drop 1 sys_argv). \<not> startswith a ''--package='')
         \<or> supplied ''--package='' (drop 1 sys_argv) = Some []
         \<or> (\<forall>a\<in>set (drop 1 sys_argv). \<not> startswith a ''--output='')
         \<or> supplied ''--output='' (drop 1 sys_argv) = Some []\<close>
  shows \<open>main e sys_argv = (Inl (Exception ''--output and --package not set''), [])\<close>
proof -
  from assms have \<open>falsy (supplied ''--output='' (drop 1 sys_argv))
                 \<or> falsy (supplied ''--package='' (drop 1 sys_argv))\<close>
    by (auto simp: falsy_def supplied_None_iff[symmetric])
  then show ?thesis by (rule main_unset)
qed

theorem missing_flag_raises_before_any_effect_witness:
  \<open>supplied ''--package='' (drop 1 [''gen.py'', ''-DELEM=int'', ''--output=pool'']) = None
   \<and> main env_ok [''gen.py'', ''-DELEM=int'', ''--output=pool'']
       = (Inl (Exception ''--output and --package not set''), [])
   \<and> supplied ''--output='' (drop 1 [''gen.py'', ''--package=p'', ''--output='']) = Some []
   \<and> main env_ok [''gen.py'', ''--package=p'', ''--output='']
       = (Inl (Exception ''--output and --package not set''), [])\<close>
proof -
  have h1: \<open>\<forall>a\<in>set (drop 1 [''gen.py'', ''-DELEM=int'', ''--output=pool'']). \<not> startswith a ''--package=''\<close>
    by (simp add: startswith_def)
  have h2: \<open>supplied ''--output='' (drop 1 [''gen.py'', ''--package=p'', ''--output='']) = Some []\<close>
    by (simp add: supplied_def startswith_def re_match_def)
  show ?thesis
    using h1 h2 supplied_None_iff[of \<open>''--package=''\<close> \<open>drop 1 [''gen.py'', ''-DELEM=int'', ''--output=pool'']\<close>]
      missing_flag_raises_before_any_effect[of \<open>[''gen.py'', ''-DELEM=int'', ''--output=pool'']\<close> env_ok]
      missing_flag_raises_before_any_effect[of \<open>[''gen.py'', ''--package=p'', ''--output='']\<close> env_ok]
    by blast
qed

text \<open>
  Claim C9. The loop leaves in \<^verbatim>\<open>package\<close> and \<^verbatim>\<open>output\<close> the value of the last
  \<^verbatim>\<open>--package=\<close> and of the last \<^verbatim>\<open>--output=\<close> argument, and these are the values the
  rest of \<^verbatim>\<open>main\<close> works with. When the last occurrence of a flag has an empty value the
  flag counts as not set and \<^verbatim>\<open>main\<close> raises its configuration error.
\<close>

theorem last_flag_wins_and_empty_is_unset:
  \<open>package (for_loop args initial_locals) = supplied ''--package='' args
   \<and> output (for_loop args initial_locals) = supplied ''--output='' args
   \<and> (\<forall>out pkg. supplied ''--output='' args = Some out \<and> out \<noteq> []
          \<and> supplied ''--package='' args = Some pkg \<and> pkg \<noteq> []
        \<longrightarrow> main e (argv0 # args) = generate e argv0 out pkg (forwarded args))
   \<and> (supplied ''--package='' args = Some [] \<or> supplied ''--output='' args = Some []
        \<longrightarrow> main e (argv0 # args) = (Inl (Exception ''--output and --package not set''), []))\<close>
  using main_set[of args _ _ e argv0] main_unset[of \<open>argv0 # args\<close> e]
  by (auto simp: parsed_package parsed_output falsy_def)

theorem last_flag_wins_and_empty_is_unset_witness:
  \<open>supplied ''--package='' [''--package=a'', ''--output=x'', ''--package=b'', ''--output=y''] = Some ''b''
   \<and> supplied ''--output='' [''--package=a'', ''--output=x'', ''--package=b'', ''--output=y''] = Some ''y''
   \<and> main env_ok [''gen.py'', ''--package=a'', ''--output=x'', ''--package=b'', ''--output=y'']
       = generate env_ok ''gen.py'' ''y'' ''b'' [''--package=a'', ''--package=b'']
   \<and> supplied ''--package='' [''--package=a'', ''--output=x'', ''--package=''] = Some []
   \<and> main env_ok [''gen.py'', ''--package=a'', ''--output=x'', ''--package='']
       = (Inl (Exception ''--output and --package not set''), [])\<close>
proof -
  have s: \<open>supplied ''--package='' [''--package=a'', ''--output=x'', ''--package=b'', ''--output=y''] = Some ''b''\<close>
    \<open>supplied ''--output='' [''--package=a'', ''--output=x'', ''--package=b'', ''--output=y''] = Some ''y''\<close>
    \<open>supplied ''--package='' [''--package=a'', ''--output=x'', ''--package=''] = Some []\<close>
    \<open>forwarded [''--package=a'', ''--output=x'', ''--package=b'', ''--output=y''] = [''--package=a'', ''--package=b'']\<close>
    by (simp_all add: supplied_def forwarded_def startswith_def re_match_def nl_def)
  from s
    last_flag_wins_and_empty_is_unset[of \<open>[''--package=a'', ''--output=x'', ''--package=b'', ''--output=y'']\<close> env_ok \<open>''gen.py''\<close>]
    last_flag_wins_and_empty_is_unset[of \<open>[''--package=a'', ''--output=x'', ''--package='']\<close> env_ok \<open>''gen.py''\<close>]
  show ?thesis by simp
qed

section \<open>The template expansions\<close>

text \<open>The definitions needed to run \<^verbatim>\<open>main\<close> on concrete arguments.\<close>

lemmas run_defs = main_def Let_def initial_locals_def loop_body_def re_match_def startswith_def
      endswith_def falsy_def generate_def cmdline_def join_def dirname_def rfind_def rstrip_sep_def
      output_dir_def and_then_def check_call_def write_file_def nl_def

text \<open>
  Claim C2, as stated, fails: an argument \<^verbatim>\<open>--package=p\<close> sets \<^verbatim>\<open>package\<close> and is then
  tested against the \<^verbatim>\<open>--output=\<close> pattern, whose \<^verbatim>\<open>else\<close> branch appends it to
  \<^verbatim>\<open>generate_argv\<close>. It reaches both expansions.
\<close>

theorem package_flag_is_forwarded:
  \<open>calls (snd (main env_ok [''gtl/gen.py'', ''--package=p'', ''-DELEM=int'', ''--output=pool''])) =
     [[''python3'', ''gtl/generate.py'', ''--output=pool.go'', ''--package=p'', ''-DELEM=int'',
       ''gtl/randomized_freepool.go.tpl''],
      [''python3'', ''gtl/generate.py'', ''--output=pool_race.go'', ''--package=p'', ''-DELEM=int'',
       ''gtl/randomized_freepool_race.go.tpl'']]\<close>
  by (simp add: run_defs env_ok_def)

text \<open>
  Claim C2, amended. Every command line that \<^verbatim>\<open>main\<close> runs carries, between its first
  three entries and the template, exactly the arguments that are not \<^verbatim>\<open>--output=\<close> flags,
  unchanged and in their order. The \<^verbatim>\<open>--package=\<close> flags are among them; the
  \<^verbatim>\<open>--output=\<close> flags are not.
\<close>

theorem forwarded_arguments:
  assumes \<open>cmd \<in> set (calls (snd (main e sys_argv)))\<close>
  shows \<open>butlast (drop 3 cmd) = filter (\<lambda>a. \<not> startswith a ''--output='') (drop 1 sys_argv)\<close>
proof (cases e sys_argv rule: main_cases)
  case unset
  with assms show ?thesis by simp
next
  case (set argv0 args out pkg)
  with assms show ?thesis
    by (auto simp: generate_calls cmdline_def forwarded_def butlast_append split: if_splits)
qed

theorem forwarded_arguments_witness:
  \<open>[''python3'', ''gtl/generate.py'', ''--output=pool_race.go'', ''--package=p'', ''-DELEM=int'',
       ''gtl/randomized_freepool_race.go.tpl'']
     \<in> set (calls (snd (main env_ok [''gtl/gen.py'', ''--package=p'', ''-DELEM=int'', ''--output=pool''])))
   \<and> butlast (drop 3 [''python3'', ''gtl/generate.py'', ''--output=pool_race.go'', ''--package=p'',
       ''-DELEM=int'', ''gtl/randomized_freepool_race.go.tpl''])
     = filter (\<lambda>a. \<not> startswith a ''--output='')
         (drop 1 [''gtl/gen.py'', ''--package=p'', ''-DELEM=int'', ''--output=pool''])\<close>
proof -
  have h: \<open>[''python3'', ''gtl/generate.py'', ''--output=pool_race.go'', ''--package=p'', ''-DELEM=int'',
       ''gtl/randomized_freepool_race.go.tpl'']
     \<in> set (calls (snd (main env_ok [''gtl/gen.py'', ''--package=p'', ''-DELEM=int'', ''--output=pool''])))\<close>
    by (simp add: run_defs env_ok_def)
  from h forwarded_arguments[OF h] show ?thesis by blast
qed

text \<open>
  Claim C3, as stated, fails: with both flags set, a first expansion that exits with a
  status other than zero is the only one that is run.
\<close>

theorem second_expansion_skipped:
  \<open>calls (snd (main env_first_fails [''gtl/gen.py'', ''--package=p'', ''--output=pool''])) =
     [[''python3'', ''gtl/generate.py'', ''--output=pool.go'', ''--package=p'',
       ''gtl/randomized_freepool.go.tpl'']]\<close>
  by (simp add: run_defs env_first_fails_def)

text \<open>
  Claim C3, amended. With both flags set, \<^verbatim>\<open>main\<close> first runs the engine with the output
  path \<^verbatim>\<open>output\<close> followed by \<^verbatim>\<open>.go\<close> and the template \<^verbatim>\<open>randomized_freepool.go.tpl\<close>.
  When that run exits with status zero it runs the engine a second and last time, with
  \<^verbatim>\<open>output\<close> followed by \<^verbatim>\<open>_race.go\<close> and the template
  \<^verbatim>\<open>randomized_freepool_race.go.tpl\<close>; otherwise the first run is the only one.
\<close>

theorem expansions_in_order:
  assumes \<open>supplied ''--output='' args = Some out\<close> \<open>out \<noteq> []\<close>
    and \<open>supplied ''--package='' args = Some pkg\<close> \<open>pkg \<noteq> []\<close>
  shows \<open>calls (snd (main e (argv0 # args))) =
     (if returncode e ([executable e, join (dirname argv0) ''generate.py'', ''--output='' @ out @ ''.go'']
            @ forwarded args @ [join (dirname argv0) ''randomized_freepool.go.tpl'']) = 0
      then [[executable e, join (dirname argv0) ''generate.py'', ''--output='' @ out @ ''.go'']
            @ forwarded args @ [join (dirname argv0) ''randomized_freepool.go.tpl''],
            [executable e, join (dirname argv0) ''generate.py'', ''--output='' @ out @ ''_race.go'']
            @ forwarded args @ [join (dirname argv0) ''randomized_freepool_race.go.tpl'']]
      else [[executable e, join (dirname argv0) ''generate.py'', ''--output='' @ out @ ''.go'']
            @ forwarded args @ [join (dirname argv0) ''randomized_freepool.go.tpl'']])\<close>
  unfolding main_set[OF assms] generate_calls cmdline_def by simp

theorem expansions_in_order_witness:
  \<open>calls (snd (main env_ok [''gtl/gen.py'', ''--package=p'', ''--output=pool''])) =
     [[''python3'', ''gtl/generate.py'', ''--output=pool.go'', ''--package=p'',
       ''gtl/randomized_freepool.go.tpl''],
      [''python3'', ''gtl/generate.py'', ''--output=pool_race.go'', ''--package=p'',
       ''gtl/randomized_freepool_race.go.tpl'']]\<close>
  using expansions_in_order[of \<open>[''--package=p'', ''--output=pool'']\<close> \<open>''pool''\<close> \<open>''p''\<close> env_ok \<open>''gtl/gen.py''\<close>]
  by (simp add: supplied_def forwarded_def startswith_def endswith_def re_match_def nl_def join_def dirname_def
      rfind_def rstrip_sep_def env_ok_def)

text \<open>
  Claim C4. With both flags set, an expansion that exits with a status other than zero makes
  \<^verbatim>\<open>main\<close> end with the \<^verbatim>\<open>CalledProcessError\<close> of that run, and the failed run is the
  last thing that happened: after a failed first expansion the second one is not run, and
  after either failure neither of the two auxiliary files is written.
\<close>

theorem failed_expansion_stops_the_driver:
  assumes \<open>supplied ''--output='' args = Some out\<close> \<open>out \<noteq> []\<close>
    and \<open>supplied ''--package='' args = Some pkg\<close> \<open>pkg \<noteq> []\<close>
    and \<open>cmd1 = cmdline e (dirname argv0) (out @ ''.go'') (forwarded args) ''randomized_freepool.go.tpl''\<close>
    and \<open>cmd2 = cmdline e (dirname argv0) (out @ ''_race.go'') (forwarded args) ''randomized_freepool_race.go.tpl''\<close>
  shows \<open>(returncode e cmd1 \<noteq> 0 \<longrightarrow>
            main e (argv0 # args) =
              (Inl (CalledProcessError (returncode e cmd1) cmd1), [Debug cmd1, CheckCall cmd1]))
       \<and> (returncode e cmd1 = 0 \<and> returncode e cmd2 \<noteq> 0 \<longrightarrow>
            main e (argv0 # args) =
              (Inl (CalledProcessError (returncode e cmd2) cmd2),
               [Debug cmd1, CheckCall cmd1, CheckCall cmd2]))\<close>
  unfolding main_set[OF assms(1-4)] assms(5,6)
  using generate_first_fails generate_second_fails by blast

theorem failed_expansion_stops_the_driver_witness:
  \<open>main env_first_fails [''gtl/gen.py'', ''--package=p'', ''--output=pool''] =
     (Inl (CalledProcessError 1
        [''python3'', ''gtl/generate.py'', ''--output=pool.go'', ''--package=p'',
         ''gtl/randomized_freepool.go.tpl'']),
      [Debug [''python3'', ''gtl/generate.py'', ''--output=pool.go'', ''--package=p'',
         ''gtl/randomized_freepool.go.tpl''],
       CheckCall [''python3'', ''gtl/generate.py'', ''--output=pool.go'', ''--package=p'',
         ''gtl/randomized_freepool.go.tpl'']])
   \<and> main env_second_fails [''gtl/gen.py'', ''--package=p'', ''--output=pool''] =
     (Inl (CalledProcessError 2
        [''python3'', ''gtl/generate.py'', ''--output=pool_race.go'', ''--package=p'',
         ''gtl/randomized_freepool_race.go.tpl'']),
      [Debug [''python3'', ''gtl/generate.py'', ''--output=pool.go'', ''--package=p'',
         ''gtl/randomized_freepool.go.tpl''],
       CheckCall [''python3'', ''gtl/generate.py'', ''--output=pool.go'', ''--package=p'',
         ''gtl/randomized_freepool.go.tpl''],
       CheckCall [''python3'', ''gtl/generate.py'', ''--output=pool_race.go'', ''--package=p'',
         ''gtl/randomized_freepool_race.go.tpl'']])\<close>
proof -
  have s: \<open>supplied ''--output='' [''--package=p'', ''--output=pool''] = Some ''pool''\<close>
    \<open>supplied ''--package='' [''--package=p'', ''--output=pool''] = Some ''p''\<close>
    by (simp_all add: supplied_def startswith_def re_match_def nl_def)
  note a = failed_expansion_stops_the_driver[OF s(1) _ s(2) _ refl refl, of env_first_fails \<open>''gtl/gen.py''\<close>]
  note b = failed_expansion_stops_the_driver[OF s(1) _ s(2) _ refl refl, of env_second_fails \<open>''gtl/gen.py''\<close>]
  from a b show ?thesis
    by (simp add: cmdline_def forwarded_def startswith_def endswith_def join_def dirname_def
      rfind_def rstrip_sep_def env_first_fails_def env_second_fails_def)
qed

section \<open>The two auxiliary files\<close>

subsection \<open>Lines of the fixed texts\<close>

lemma split_on_nonempty: \<open>split_on c s \<noteq> []\<close>
  by (induction s) (auto split: list.splits)

lemma split_on_line: \<open>c \<notin> set a \<Longrightarrow> split_on c (a @ c # b) = a # split_on c b\<close>
  by (induction a) (auto split: list.splits)

lemma lines_of_unlines:
  \<open>(\<forall>l\<in>set ls. nl \<notin> set l) \<Longrightarrow> lines_of (unlines ls) = ls @ [[]]\<close>
proof (induction ls)
  case Nil
  show ?case by (simp add: lines_of_def unlines_def)
next
  case (Cons l ls)
  then have \<open>lines_of (unlines ls) = ls @ [[]]\<close> and \<open>nl \<notin> set l\<close>
    by simp_all
  then show ?case
    using split_on_line[of nl l \<open>unlines ls\<close>]
    by (simp add: lines_of_def unlines_def)
qed

lemma glue_body_no_newline: \<open>\<forall>l\<in>set glue_body. nl \<notin> set l\<close>
  by (simp add: glue_body_def nl_def)

lemma lines_of_glue_text:
  assumes \<open>nl \<notin> set pkg\<close>
  shows \<open>lines_of (glue_text pkg) =
     ''// Code generated by generate_randomized_freepool.py. DO NOT EDIT.''
     # (''package '' @ pkg) # glue_body @ [[]]\<close>
proof -
  have \<open>\<forall>l\<in>set (''// Code generated by generate_randomized_freepool.py. DO NOT EDIT.''
     # (''package '' @ pkg) # glue_body). nl \<notin> set l\<close>
    using assms glue_body_no_newline by (simp add: nl_def)
  then show ?thesis
    unfolding glue_text_def by (simp add: lines_of_unlines)
qed

lemma lines_of_stub_text:
  \<open>lines_of stub_text =
    [''// Code generated by generate_randomized_freepool.py. DO NOT EDIT.'',
     '''',
     ''// Dummy file to force the go compiler to honor go:linkname directives. See'',
     ''//'',
     ''// https://github.com/golang/go/issues/15006'',
     ''// http://www.alangpierce.com/blog/2016/03/17/adventures-in-go-accessing-unexported-functions/'',
     '''']\<close>
  unfolding stub_text_def by (subst lines_of_unlines) (simp_all add: nl_def)

lemma endswith_last: \<open>endswith s p \<Longrightarrow> p \<noteq> [] \<Longrightarrow> last s = last p\<close>
  unfolding endswith_def
  by (metis append_take_drop_id last_appendR)

lemma main_writes:
  assumes \<open>(p, t) \<in> set (writes (snd (main e sys_argv)))\<close>
  obtains out pkg where
    \<open>supplied ''--output='' (drop 1 sys_argv) = Some out\<close>
    \<open>supplied ''--package='' (drop 1 sys_argv) = Some pkg\<close>
    \<open>(p = output_dir out @ ''/randomized_freepool_internal.s'' \<and> t = stub_text) \<or>
     (p = output_dir out @ ''/randomized_freepool_internal.go'' \<and> t = glue_text pkg)\<close>
proof (cases e sys_argv rule: main_cases)
  case unset
  with assms show ?thesis by simp
next
  case (set argv0 args out pkg)
  with assms generate_writes[of p t e argv0 out pkg \<open>forwarded args\<close>] that[of out pkg]
  show ?thesis by simp
qed

subsection \<open>Their contents\<close>

text \<open>
  Claim C7, as stated, fails: the text written to \<^verbatim>\<open>randomized_freepool_internal.s\<close>
  has 287 characters.
\<close>

theorem stub_file_has_text:
  \<open>fst (main env_ok [''gen.py'', ''--package=p'', ''--output=pool'']) = Inr ()
   \<and> fst (writes (snd (main env_ok [''gen.py'', ''--package=p'', ''--output=pool''])) ! 0)
       = ''./randomized_freepool_internal.s''
   \<and> length (snd (writes (snd (main env_ok [''gen.py'', ''--package=p'', ''--output=pool''])) ! 0))
       = 287\<close>
  by (simp add: run_defs env_ok_def stub_text_def unlines_def)

text \<open>
  Claim C7, amended. The file \<^verbatim>\<open>randomized_freepool_internal.s\<close> written by the driver
  is not empty: it holds a fixed text whose lines are all blank or \<^verbatim>\<open>//\<close> comments, so
  it holds no instruction.
\<close>

theorem stub_file_is_comments_only:
  assumes \<open>(p, t) \<in> set (writes (snd (main e sys_argv)))\<close>
    and \<open>endswith p ''/randomized_freepool_internal.s''\<close>
  shows \<open>t = stub_text \<and> t \<noteq> [] \<and> length (lines_of t) = 7
       \<and> (\<forall>l\<in>set (lines_of t). l = [] \<or> startswith l ''//'')\<close>
proof -
  from assms(1) obtain out pkg where
    \<open>(p = output_dir out @ ''/randomized_freepool_internal.s'' \<and> t = stub_text) \<or>
     (p = output_dir out @ ''/randomized_freepool_internal.go'' \<and> t = glue_text pkg)\<close>
    by (rule main_writes)
  moreover have \<open>last p = CHR ''s''\<close>
    using endswith_last[OF assms(2)] by simp
  ultimately have t: \<open>t = stub_text\<close>
    by auto
  have \<open>stub_text \<noteq> []\<close>
    by (simp add: stub_text_def unlines_def)
  with t show ?thesis
    by (simp add: lines_of_stub_text startswith_def)
qed

theorem stub_file_is_comments_only_witness:
  \<open>(''./randomized_freepool_internal.s'', stub_text)
      \<in> set (writes (snd (main env_ok [''gen.py'', ''--package=p'', ''--output=pool''])))
   \<and> endswith ''./randomized_freepool_internal.s'' ''/randomized_freepool_internal.s''
   \<and> stub_text \<noteq> [] \<and> length (lines_of stub_text) = 7
   \<and> list_all (\<lambda>l. l = [] \<or> startswith l ''//'') (lines_of stub_text)\<close>
proof -
  have h: \<open>(''./randomized_freepool_internal.s'', stub_text)
      \<in> set (writes (snd (main env_ok [''gen.py'', ''--package=p'', ''--output=pool''])))\<close>
    by (simp add: run_defs env_ok_def)
  have h2: \<open>endswith ''./randomized_freepool_internal.s'' ''/randomized_freepool_internal.s''\<close>
    by (simp add: endswith_def)
  from h h2 stub_file_is_comments_only[OF h h2] show ?thesis
    by (simp add: list_all_iff)
qed

text \<open>
  Claim C8. The file \<^verbatim>\<open>randomized_freepool_internal.go\<close> written by the driver has one
  package declaration, which names the value of the \<^verbatim>\<open>--package\<close> flag, and declares
  three functions, \<^verbatim>\<open>runtime_procPin() int\<close>, \<^verbatim>\<open>runtime_procUnpin()\<close> and
  \<^verbatim>\<open>fastrandn(n uint32) uint32\<close>, each bound by a \<^verbatim>\<open>go:linkname\<close> directive. Apart
  from comments and the import of \<^verbatim>\<open>unsafe\<close> it holds nothing else.
\<close>

theorem glue_file_declares_the_bridge:
  assumes \<open>(p, t) \<in> set (writes (snd (main e sys_argv)))\<close>
    and \<open>endswith p ''/randomized_freepool_internal.go''\<close>
    and \<open>supplied ''--package='' (drop 1 sys_argv) = Some pkg\<close>
  shows \<open>filter (\<lambda>l. startswith l ''package'') (lines_of t) = [''package '' @ pkg]
       \<and> filter (\<lambda>l. startswith l ''func'') (lines_of t) =
           [''func runtime_procPin() int'',
            ''func runtime_procUnpin()'',
            ''func fastrandn(n uint32) uint32'']
       \<and> filter (\<lambda>l. startswith l ''//go:linkname'') (lines_of t) =
           [''//go:linkname runtime_procPin sync.runtime_procPin'',
            ''//go:linkname runtime_procUnpin sync.runtime_procUnpin'',
            ''//go:linkname fastrandn sync.fastrandn'']
       \<and> filter (\<lambda>l. l \<noteq> [] \<and> \<not> startswith l ''//'') (lines_of t) =
           [''package '' @ pkg,
            ''import _ "unsafe"'',
            ''func runtime_procPin() int'',
            ''func runtime_procUnpin()'',
            ''func fastrandn(n uint32) uint32'']\<close>
proof -
  from assms(1) obtain out pkg' where o:
    \<open>supplied ''--package='' (drop 1 sys_argv) = Some pkg'\<close>
    \<open>(p = output_dir out @ ''/randomized_freepool_internal.s'' \<and> t = stub_text) \<or>
     (p = output_dir out @ ''/randomized_freepool_internal.go'' \<and> t = glue_text pkg')\<close>
    by (rule main_writes)
  have \<open>last p = CHR ''o''\<close>
    using endswith_last[OF assms(2)] by simp
  with o assms(3) have t: \<open>t = glue_text pkg\<close>
    by auto
  have \<open>nl \<notin> set pkg\<close>
    using assms(3) by (rule supplied_no_newline)
  then have l: \<open>lines_of t =
     ''// Code generated by generate_randomized_freepool.py. DO NOT EDIT.''
     # (''package '' @ pkg) # glue_body @ [[]]\<close>
    unfolding t by (rule lines_of_glue_text)
  show ?thesis
    unfolding l by (simp add: glue_body_def startswith_def)
qed

theorem glue_file_declares_the_bridge_witness:
  \<open>(''./randomized_freepool_internal.go'', glue_text ''p'')
      \<in> set (writes (snd (main env_ok [''gen.py'', ''--package=p'', ''--output=pool''])))
   \<and> filter (\<lambda>l. startswith l ''package'') (lines_of (glue_text ''p'')) = [''package p'']
   \<and> filter (\<lambda>l. startswith l ''func'') (lines_of (glue_text ''p'')) =
           [''func runtime_procPin() int'',
            ''func runtime_procUnpin()'',
            ''func fastrandn(n uint32) uint32'']\<close>
proof -
  have h: \<open>(''./randomized_freepool_internal.go'', glue_text ''p'')
      \<in> set (writes (snd (main env_ok [''gen.py'', ''--package=p'', ''--output=pool''])))\<close>
    by (simp add: run_defs env_ok_def)
  have h2: \<open>endswith ''./randomized_freepool_internal.go'' ''/randomized_freepool_internal.go''\<close>
    by (simp add: endswith_def)
  have h3: \<open>supplied ''--package='' (drop 1 [''gen.py'', ''--package=p'', ''--output=pool'']) = Some ''p''\<close>
    by (simp add: supplied_def startswith_def re_match_def nl_def)
  from h glue_file_declares_the_bridge[OF h h2 h3] show ?thesis
    by simp
qed

text \<open>
  Claim C6. Whatever the environments and the arguments of two invocations, the texts they
  write to \<^verbatim>\<open>randomized_freepool_internal.s\<close> are equal, and the texts they write to
  \<^verbatim>\<open>randomized_freepool_internal.go\<close> are equal when the \<^verbatim>\<open>--package\<close> values are
  equal and differ in their second line, the package declaration, and nowhere else when not.
\<close>

theorem auxiliary_files_depend_on_package_only:
  assumes \<open>(p1, t1) \<in> set (writes (snd (main e1 argv1)))\<close>
    and \<open>(p2, t2) \<in> set (writes (snd (main e2 argv2)))\<close>
    and \<open>supplied ''--package='' (drop 1 argv1) = Some pkg1\<close>
    and \<open>supplied ''--package='' (drop 1 argv2) = Some pkg2\<close>
  shows \<open>(endswith p1 ''/randomized_freepool_internal.s''
          \<and> endswith p2 ''/randomized_freepool_internal.s'' \<longrightarrow> t1 = t2)
       \<and> (endswith p1 ''/randomized_freepool_internal.go''
          \<and> endswith p2 ''/randomized_freepool_internal.go'' \<longrightarrow>
            (pkg1 = pkg2 \<longrightarrow> t1 = t2)
            \<and> lines_of t1 ! 1 = ''package '' @ pkg1
            \<and> lines_of t2 ! 1 = ''package '' @ pkg2
            \<and> lines_of t1 = (lines_of t2)[1 := ''package '' @ pkg1])\<close>
proof (rule conjI; rule impI)
  assume \<open>endswith p1 ''/randomized_freepool_internal.s'' \<and> endswith p2 ''/randomized_freepool_internal.s''\<close>
  then have \<open>last p1 = CHR ''s''\<close> \<open>last p2 = CHR ''s''\<close>
    using endswith_last[of p1 \<open>''/randomized_freepool_internal.s''\<close>]
      endswith_last[of p2 \<open>''/randomized_freepool_internal.s''\<close>] by simp_all
  moreover from assms(1) obtain out pkg where
    \<open>(p1 = output_dir out @ ''/randomized_freepool_internal.s'' \<and> t1 = stub_text) \<or>
     (p1 = output_dir out @ ''/randomized_freepool_internal.go'' \<and> t1 = glue_text pkg)\<close>
    by (rule main_writes)
  moreover from assms(2) obtain out' pkg' where
    \<open>(p2 = output_dir out' @ ''/randomized_freepool_internal.s'' \<and> t2 = stub_text) \<or>
     (p2 = output_dir out' @ ''/randomized_freepool_internal.go'' \<and> t2 = glue_text pkg')\<close>
    by (rule main_writes)
  ultimately show \<open>t1 = t2\<close>
    by auto
next
  assume a: \<open>endswith p1 ''/randomized_freepool_internal.go'' \<and> endswith p2 ''/randomized_freepool_internal.go''\<close>
  then have l: \<open>last p1 = CHR ''o''\<close> \<open>last p2 = CHR ''o''\<close>
    using endswith_last[of p1 \<open>''/randomized_freepool_internal.go''\<close>]
      endswith_last[of p2 \<open>''/randomized_freepool_internal.go''\<close>] by simp_all
  from assms(1) obtain out pkg where
    \<open>supplied ''--package='' (drop 1 argv1) = Some pkg\<close>
    \<open>(p1 = output_dir out @ ''/randomized_freepool_internal.s'' \<and> t1 = stub_text) \<or>
     (p1 = output_dir out @ ''/randomized_freepool_internal.go'' \<and> t1 = glue_text pkg)\<close>
    by (rule main_writes)
  with l assms(3) have t1: \<open>t1 = glue_text pkg1\<close>
    by auto
  from assms(2) obtain out' pkg' where
    \<open>supplied ''--package='' (drop 1 argv2) = Some pkg'\<close>
    \<open>(p2 = output_dir out' @ ''/randomized_freepool_internal.s'' \<and> t2 = stub_text) \<or>
     (p2 = output_dir out' @ ''/randomized_freepool_internal.go'' \<and> t2 = glue_text pkg')\<close>
    by (rule main_writes)
  with l assms(4) have t2: \<open>t2 = glue_text pkg2\<close>
    by auto
  have n: \<open>nl \<notin> set pkg1\<close> \<open>nl \<notin> set pkg2\<close>
    using assms(3,4) by (auto dest: supplied_no_newline)
  have \<open>pkg1 = pkg2 \<longrightarrow> t1 = t2\<close>
    by (simp add: t1 t2)
  moreover have \<open>lines_of t1 ! 1 = ''package '' @ pkg1\<close>
    by (simp add: t1 lines_of_glue_text[OF n(1)])
  moreover have \<open>lines_of t2 ! 1 = ''package '' @ pkg2\<close>
    by (simp add: t2 lines_of_glue_text[OF n(2)])
  moreover have \<open>lines_of t1 = (lines_of t2)[1 := ''package '' @ pkg1]\<close>
    by (simp add: t1 t2 lines_of_glue_text[OF n(1)] lines_of_glue_text[OF n(2)])
  ultimately show \<open>(pkg1 = pkg2 \<longrightarrow> t1 = t2)
            \<and> lines_of t1 ! 1 = ''package '' @ pkg1
            \<and> lines_of t2 ! 1 = ''package '' @ pkg2
            \<and> lines_of t1 = (lines_of t2)[1 := ''package '' @ pkg1]\<close>
    by blast
qed

theorem auxiliary_files_depend_on_package_only_witness:
  \<open>(''./randomized_freepool_internal.go'', glue_text ''p'')
      \<in> set (writes (snd (main env_ok [''gen.py'', ''--package=p'', ''--output=pool''])))
   \<and> (''d/randomized_freepool_internal.go'', glue_text ''q'')
      \<in> set (writes (snd (main env_ok [''gtl/gen.py'', ''--output=d/x'', ''-DELEM=int'', ''--package=q''])))
   \<and> lines_of (glue_text ''p'') = (lines_of (glue_text ''q''))[1 := ''package p'']
   \<and> (''./randomized_freepool_internal.s'', stub_text)
      \<in> set (writes (snd (main env_ok [''gen.py'', ''--package=p'', ''--output=pool''])))
   \<and> (''d/randomized_freepool_internal.s'', stub_text)
      \<in> set (writes (snd (main env_ok [''gtl/gen.py'', ''--output=d/x'', ''-DELEM=int'', ''--package=q''])))\<close>
proof -
  have h1: \<open>(''./randomized_freepool_internal.go'', glue_text ''p'')
      \<in> set (writes (snd (main env_ok [''gen.py'', ''--package=p'', ''--output=pool''])))\<close>
    and h1s: \<open>(''./randomized_freepool_internal.s'', stub_text)
      \<in> set (writes (snd (main env_ok [''gen.py'', ''--package=p'', ''--output=pool''])))\<close>
    by (simp_all add: run_defs env_ok_def)
  have h2: \<open>(''d/randomized_freepool_internal.go'', glue_text ''q'')
      \<in> set (writes (snd (main env_ok [''gtl/gen.py'', ''--output=d/x'', ''-DELEM=int'', ''--package=q''])))\<close>
    and h2s: \<open>(''d/randomized_freepool_internal.s'', stub_text)
      \<in> set (writes (snd (main env_ok [''gtl/gen.py'', ''--output=d/x'', ''-DELEM=int'', ''--package=q''])))\<close>
    by (simp_all add: run_defs env_ok_def)
  have h3: \<open>supplied ''--package='' (drop 1 [''gen.py'', ''--package=p'', ''--output=pool'']) = Some ''p''\<close>
    and h4: \<open>supplied ''--package='' (drop 1 [''gtl/gen.py'', ''--output=d/x'', ''-DELEM=int'', ''--package=q'']) = Some ''q''\<close>
    by (simp_all add: supplied_def startswith_def re_match_def nl_def)
  have e: \<open>endswith ''./randomized_freepool_internal.go'' ''/randomized_freepool_internal.go''\<close>
    \<open>endswith ''d/randomized_freepool_internal.go'' ''/randomized_freepool_internal.go''\<close>
    by (simp_all add: endswith_def)
  from h1 h2 h1s h2s e auxiliary_files_depend_on_package_only[OF h1 h2 h3 h4] show ?thesis
    by simp
qed

section \<open>Where the files go\<close>

subsection \<open>The directory part of a path\<close>

text \<open>
  \<^verbatim>\<open>dirname\<close> cuts a path after its last slash and then strips the slashes at the end of
  the cut, unless the cut holds nothing but slashes.
\<close>

lemma head_of_path:
  \<open>take (nat (rfind p (CHR ''/'') + 1)) p = rev (dropWhile (\<lambda>x. x \<noteq> CHR ''/'') (rev p))\<close>
proof -
  let ?t = \<open>takeWhile (\<lambda>x. x \<noteq> CHR ''/'') (rev p)\<close>
  let ?d = \<open>dropWhile (\<lambda>x. x \<noteq> CHR ''/'') (rev p)\<close>
  have p: \<open>p = rev ?d @ rev ?t\<close>
    by (metis rev_append rev_rev_ident takeWhile_dropWhile_id)
  have len: \<open>length p = length ?d + length ?t\<close>
    by (metis length_append length_rev p)
  show ?thesis
  proof (cases \<open>CHR ''/'' \<in> set p\<close>)
    case True
    then have \<open>nat (rfind p (CHR ''/'') + 1) = length (rev ?d)\<close>
      using len by (simp add: rfind_def)
    then show ?thesis
      using p by (metis append_eq_conv_conj)
  next
    case False
    then have \<open>?d = []\<close>
      by (auto simp: dropWhile_eq_Nil_conv)
    with False show ?thesis
      by (simp add: rfind_def)
  qed
qed

lemma path_decomposition:
  obtains hd_part tl_part where \<open>p = hd_part @ tl_part\<close> \<open>CHR ''/'' \<notin> set tl_part\<close>
    \<open>hd_part = [] \<or> (\<exists>h. hd_part = h @ ''/'')\<close>
    \<open>dirname p = (if hd_part \<noteq> [] \<and> hd_part \<noteq> replicate (length hd_part) (CHR ''/'')
                  then rstrip_sep hd_part else hd_part)\<close>
proof -
  let ?t = \<open>takeWhile (\<lambda>x. x \<noteq> CHR ''/'') (rev p)\<close>
  let ?d = \<open>dropWhile (\<lambda>x. x \<noteq> CHR ''/'') (rev p)\<close>
  have 1: \<open>p = rev ?d @ rev ?t\<close>
    by (metis rev_append rev_rev_ident takeWhile_dropWhile_id)
  have 2: \<open>CHR ''/'' \<notin> set (rev ?t)\<close>
    by (auto dest: set_takeWhileD)
  have 3: \<open>rev ?d = [] \<or> (\<exists>h. rev ?d = h @ ''/'')\<close>
  proof (cases ?d)
    case Nil
    then show ?thesis by simp
  next
    case (Cons x xs)
    then have \<open>x = CHR ''/''\<close>
      using hd_dropWhile[of \<open>\<lambda>x. x \<noteq> CHR ''/''\<close> \<open>rev p\<close>] by simp
    with Cons show ?thesis by simp
  qed
  have 4: \<open>dirname p = (if rev ?d \<noteq> [] \<and> rev ?d \<noteq> replicate (length (rev ?d)) (CHR ''/'')
                  then rstrip_sep (rev ?d) else rev ?d)\<close>
    unfolding dirname_def Let_def head_of_path ..
  from 1 2 3 4 that show ?thesis by blast
qed

lemma rstrip_sep_snoc: \<open>rstrip_sep (s @ ''/'') = rstrip_sep s\<close>
  by (simp add: rstrip_sep_def)

lemma rstrip_sep_eq_Nil: \<open>rstrip_sep s = [] \<longleftrightarrow> s = replicate (length s) (CHR ''/'')\<close>
proof (induction s rule: rev_induct)
  case Nil
  show ?case by (simp add: rstrip_sep_def)
next
  case (snoc x s)
  show ?case
  proof (cases \<open>x = CHR ''/''\<close>)
    case True
    have \<open>replicate (length s) (CHR ''/'') @ ''/'' = replicate (Suc (length s)) (CHR ''/'')\<close>
      by (simp add: replicate_append_same)
    with True snoc show ?thesis
      by (simp add: rstrip_sep_snoc) (metis append1_eq_conv)
  next
    case False
    then have \<open>s @ [x] \<noteq> replicate (length (s @ [x])) (CHR ''/'')\<close>
      by (metis in_set_conv_decomp in_set_replicate)
    with False show ?thesis
      by (simp add: rstrip_sep_def)
  qed
qed

lemma rstrip_sep_prefix: \<open>\<exists>k. s = rstrip_sep s @ replicate k (CHR ''/'')\<close>
proof (induction s rule: rev_induct)
  case Nil
  show ?case by (simp add: rstrip_sep_def)
next
  case (snoc x s)
  show ?case
  proof (cases \<open>x = CHR ''/''\<close>)
    case True
    from snoc obtain k where k: \<open>s = rstrip_sep s @ replicate k (CHR ''/'')\<close> ..
    have \<open>s @ ''/'' = rstrip_sep (s @ ''/'') @ replicate (Suc k) (CHR ''/'')\<close>
      unfolding rstrip_sep_snoc using k
      by (metis append.assoc replicate_append_same replicate_Suc)
    with True show ?thesis by blast
  next
    case False
    then have \<open>s @ [x] = rstrip_sep (s @ [x]) @ replicate 0 (CHR ''/'')\<close>
      by (simp add: rstrip_sep_def)
    then show ?thesis ..
  qed
qed

lemma dirname_Nil_iff: \<open>dirname p = [] \<longleftrightarrow> CHR ''/'' \<notin> set p\<close>
proof -
  obtain h t where d: \<open>p = h @ t\<close> \<open>CHR ''/'' \<notin> set t\<close> \<open>h = [] \<or> (\<exists>h'. h = h' @ ''/'')\<close>
    \<open>dirname p = (if h \<noteq> [] \<and> h \<noteq> replicate (length h) (CHR ''/'') then rstrip_sep h else h)\<close>
    by (rule path_decomposition)
  show ?thesis
  proof (cases \<open>h = []\<close>)
    case True
    with d show ?thesis by simp
  next
    case False
    with d(3) have \<open>CHR ''/'' \<in> set p\<close>
      unfolding d(1) by auto
    moreover have \<open>dirname p \<noteq> []\<close>
      unfolding d(4) using False by (simp add: rstrip_sep_eq_Nil)
    ultimately show ?thesis by simp
  qed
qed

lemma output_dir_cases:
  \<open>output_dir out = (if CHR ''/'' \<in> set out then dirname out else ''.'')\<close>
  by (simp add: output_dir_def dirname_Nil_iff)

subsection \<open>Components of a path\<close>

lemma split_on_sep: \<open>split_on c (a @ c # b) = split_on c a @ split_on c b\<close>
proof (induction a)
  case Nil
  show ?case by simp
next
  case (Cons x a)
  obtain l ls where \<open>split_on c a = l # ls\<close>
    using split_on_nonempty[of c a] by (cases \<open>split_on c a\<close>) auto
  with Cons show ?case by simp
qed

lemma split_on_free: \<open>c \<notin> set t \<Longrightarrow> split_on c t = [t]\<close>
  by (induction t) auto

lemma split_on_tail:
  \<open>c \<notin> set t \<Longrightarrow> split_on c (a @ t) = butlast (split_on c a) @ [last (split_on c a) @ t]\<close>
proof (induction a)
  case Nil
  then show ?case by (simp add: split_on_free)
next
  case (Cons x a)
  obtain l ls where s: \<open>split_on c a = l # ls\<close>
    using split_on_nonempty[of c a] by (cases \<open>split_on c a\<close>) auto
  show ?case
  proof (cases ls)
    case Nil
    with s Cons show ?thesis by simp
  next
    case (Cons m ms)
    with s Cons.IH[OF Cons.prems] show ?thesis by simp
  qed
qed

lemma butlast_split_tail:
  \<open>c \<notin> set t \<Longrightarrow> butlast (split_on c (a @ t)) = butlast (split_on c a)\<close>
  by (simp add: split_on_tail)

lemma names_rstrip:
  \<open>filter (\<lambda>n. n \<noteq> [] \<and> n \<noteq> ''.'') (split_on (CHR ''/'') (rstrip_sep s)) =
   filter (\<lambda>n. n \<noteq> [] \<and> n \<noteq> ''.'') (split_on (CHR ''/'') s)\<close>
proof (induction s rule: rev_induct)
  case Nil
  show ?case by (simp add: rstrip_sep_def)
next
  case (snoc x s)
  show ?case
  proof (cases \<open>x = CHR ''/''\<close>)
    case True
    have \<open>split_on (CHR ''/'') (s @ ''/'') = split_on (CHR ''/'') s @ [[]]\<close>
      using split_on_sep[of \<open>CHR ''/''\<close> s \<open>[]\<close>] by simp
    with True snoc show ?thesis
      by (simp add: rstrip_sep_snoc)
  next
    case False
    then show ?thesis by (simp add: rstrip_sep_def)
  qed
qed

lemma startswith_sep: \<open>startswith s ''/'' \<longleftrightarrow> s \<noteq> [] \<and> hd s = CHR ''/''\<close>
  by (cases s) (simp_all add: startswith_def)

lemma directory_of_file_in:
  assumes \<open>CHR ''/'' \<notin> set name\<close>
  shows \<open>directory_of (d @ ''/'' @ name) =
     (d = [] \<or> hd d = CHR ''/'', filter (\<lambda>n. n \<noteq> [] \<and> n \<noteq> ''.'') (split_on (CHR ''/'') d))\<close>
proof -
  have \<open>split_on (CHR ''/'') (d @ ''/'' @ name) = split_on (CHR ''/'') d @ [name]\<close>
    using split_on_sep[of \<open>CHR ''/''\<close> d name] assms by (simp add: split_on_free)
  moreover have \<open>startswith (d @ ''/'' @ name) ''/'' \<longleftrightarrow> d = [] \<or> hd d = CHR ''/''\<close>
    by (cases d) (simp_all add: startswith_sep)
  ultimately show ?thesis
    by (simp add: directory_of_def)
qed

lemma directory_of_relative:
  assumes \<open>CHR ''/'' \<notin> set t\<close>
  shows \<open>directory_of t = (False, [])\<close>
proof -
  have \<open>\<not> startswith t ''/''\<close>
    using assms by (cases t) (auto simp: startswith_sep)
  then show ?thesis
    using assms by (simp add: directory_of_def split_on_free)
qed

lemma all_sep_snoc:
  \<open>h' @ ''/'' = replicate (length (h' @ ''/'')) (CHR ''/'') \<longleftrightarrow> h' = replicate (length h') (CHR ''/'')\<close>
proof -
  have \<open>replicate (length (h' @ ''/'')) (CHR ''/'') = replicate (length h') (CHR ''/'') @ ''/''\<close>
    by (simp add: replicate_append_same)
  then show ?thesis by simp
qed

lemma hd_replicate: \<open>s = replicate n c \<Longrightarrow> s = [] \<or> hd s = c\<close>
  by (cases n) auto

lemma hd_rstrip_sep:
  assumes \<open>rstrip_sep s \<noteq> []\<close>
  shows \<open>hd (rstrip_sep s) = hd s\<close>
proof -
  obtain k where \<open>s = rstrip_sep s @ replicate k (CHR ''/'')\<close>
    using rstrip_sep_prefix by blast
  then have \<open>hd s = hd (rstrip_sep s @ replicate k (CHR ''/''))\<close>
    by simp
  also have \<open>\<dots> = hd (rstrip_sep s)\<close>
    using assms by simp
  finally show ?thesis by simp
qed

lemma directory_of_output:
  assumes \<open>CHR ''/'' \<notin> set suffix\<close> \<open>CHR ''/'' \<notin> set name\<close>
  shows \<open>directory_of (output_dir out @ ''/'' @ name) = directory_of (out @ suffix)\<close>
proof -
  obtain h t where d: \<open>out = h @ t\<close> \<open>CHR ''/'' \<notin> set t\<close> \<open>h = [] \<or> (\<exists>h'. h = h' @ ''/'')\<close>
    \<open>dirname out = (if h \<noteq> [] \<and> h \<noteq> replicate (length h) (CHR ''/'') then rstrip_sep h else h)\<close>
    by (rule path_decomposition)
  have ts: \<open>CHR ''/'' \<notin> set (t @ suffix)\<close>
    using d(2) assms(1) by simp
  show ?thesis
  proof (cases \<open>h = []\<close>)
    case True
    then have \<open>CHR ''/'' \<notin> set out\<close>
      using d by simp
    then have od: \<open>output_dir out = ''.''\<close>
      by (simp add: output_dir_cases)
    have \<open>directory_of (out @ suffix) = (False, [])\<close>
      using directory_of_relative[OF ts] True d(1) by simp
    moreover have \<open>directory_of (''.'' @ ''/'' @ name) = (False, [])\<close>
      unfolding directory_of_file_in[OF assms(2)] by simp
    ultimately show ?thesis
      by (simp add: od)
  next
    case False
    with d(3) obtain h' where h': \<open>h = h' @ ''/''\<close>
      by blast
    then have \<open>CHR ''/'' \<in> set out\<close>
      by (simp add: d(1))
    then have od: \<open>output_dir out = dirname out\<close>
      by (simp add: output_dir_cases)
    have \<open>out @ suffix = h' @ ''/'' @ (t @ suffix)\<close>
      by (simp add: d(1) h')
    then have pool: \<open>directory_of (out @ suffix) =
        (h' = [] \<or> hd h' = CHR ''/'', filter (\<lambda>n. n \<noteq> [] \<and> n \<noteq> ''.'') (split_on (CHR ''/'') h'))\<close>
      using directory_of_file_in[OF ts, of h'] by simp
    have aux: \<open>directory_of (dirname out @ ''/'' @ name) =
        (dirname out = [] \<or> hd (dirname out) = CHR ''/'',
         filter (\<lambda>n. n \<noteq> [] \<and> n \<noteq> ''.'') (split_on (CHR ''/'') (dirname out)))\<close>
      by (rule directory_of_file_in[OF assms(2)])
    show ?thesis
    proof (cases \<open>h' = replicate (length h') (CHR ''/'')\<close>)
      case True
      then have \<open>h = replicate (length h) (CHR ''/'')\<close>
        unfolding h' by (simp only: all_sep_snoc)
      then have dn: \<open>dirname out = h' @ ''/''\<close>
        using d(4) h' by simp
      have s: \<open>split_on (CHR ''/'') (h' @ ''/'') = split_on (CHR ''/'') h' @ [[]]\<close>
        using split_on_sep[of \<open>CHR ''/''\<close> h' \<open>[]\<close>] by simp
      have hd1: \<open>h' = [] \<or> hd h' = CHR ''/''\<close>
        using True by (rule hd_replicate)
      then have hd2: \<open>hd (h' @ ''/'') = CHR ''/''\<close>
        by (cases h') simp_all
      have \<open>directory_of (output_dir out @ ''/'' @ name) = directory_of ((h' @ ''/'') @ ''/'' @ name)\<close>
        by (simp only: od dn)
      also have \<open>\<dots> = (h' @ ''/'' = [] \<or> hd (h' @ ''/'') = CHR ''/'',
          filter (\<lambda>n. n \<noteq> [] \<and> n \<noteq> ''.'') (split_on (CHR ''/'') (h' @ ''/'')))\<close>
        by (rule directory_of_file_in[OF assms(2)])
      also have \<open>\<dots> = (True, filter (\<lambda>n. n \<noteq> [] \<and> n \<noteq> ''.'') (split_on (CHR ''/'') h'))\<close>
        using hd2 by (simp add: s)
      also have \<open>\<dots> = directory_of (out @ suffix)\<close>
        using hd1 by (simp add: pool)
      finally show ?thesis .
    next
      case nall: False
      then have \<open>h \<noteq> replicate (length h) (CHR ''/'')\<close>
        unfolding h' by (simp only: all_sep_snoc) simp
      then have dn: \<open>dirname out = rstrip_sep h'\<close>
        using d(4) h' False by (simp add: rstrip_sep_snoc)
      have ne: \<open>rstrip_sep h' \<noteq> []\<close>
        using nall by (simp add: rstrip_sep_eq_Nil)
      have \<open>h' \<noteq> []\<close>
        using nall by auto
      have \<open>directory_of (output_dir out @ ''/'' @ name) = directory_of (rstrip_sep h' @ ''/'' @ name)\<close>
        by (simp only: od dn)
      also have \<open>\<dots> = (rstrip_sep h' = [] \<or> hd (rstrip_sep h') = CHR ''/'',
          filter (\<lambda>n. n \<noteq> [] \<and> n \<noteq> ''.'') (split_on (CHR ''/'') (rstrip_sep h')))\<close>
        by (rule directory_of_file_in[OF assms(2)])
      also have \<open>\<dots> = (h' = [] \<or> hd h' = CHR ''/'',
          filter (\<lambda>n. n \<noteq> [] \<and> n \<noteq> ''.'') (split_on (CHR ''/'') h'))\<close>
        using ne \<open>h' \<noteq> []\<close> by (simp add: names_rstrip hd_rstrip_sep)
      also have \<open>\<dots> = directory_of (out @ suffix)\<close>
        by (simp only: pool)
      finally show ?thesis .
    qed
  qed
qed

text \<open>
  Claim C10. When the value of \<^verbatim>\<open>--output\<close> has no slash, the two auxiliary files are
  written to \<^verbatim>\<open>./randomized_freepool_internal.s\<close> and
  \<^verbatim>\<open>./randomized_freepool_internal.go\<close>; otherwise they are written under
  \<^verbatim>\<open>dirname\<close> of the value. In both cases the directory they are written to is the
  directory of the two pool sources \<^verbatim>\<open>output\<close>\<^verbatim>\<open>.go\<close> and
  \<^verbatim>\<open>output\<close>\<^verbatim>\<open>_race.go\<close>, though the paths may spell it differently.
\<close>

theorem auxiliary_files_beside_the_pool_sources:
  assumes \<open>(p, t) \<in> set (writes (snd (main e sys_argv)))\<close>
    and \<open>supplied ''--output='' (drop 1 sys_argv) = Some out\<close>
  shows \<open>(CHR ''/'' \<notin> set out \<longrightarrow>
            p = ''./randomized_freepool_internal.s'' \<or> p = ''./randomized_freepool_internal.go'')
       \<and> (CHR ''/'' \<in> set out \<longrightarrow>
            p = dirname out @ ''/randomized_freepool_internal.s''
            \<or> p = dirname out @ ''/randomized_freepool_internal.go'')
       \<and> directory_of p = directory_of (out @ ''.go'')
       \<and> directory_of p = directory_of (out @ ''_race.go'')\<close>
proof -
  from assms have p: \<open>p = output_dir out @ ''/'' @ ''randomized_freepool_internal.s''
      \<or> p = output_dir out @ ''/'' @ ''randomized_freepool_internal.go''\<close>
    by (auto elim!: main_writes)
  have 1: \<open>directory_of (output_dir out @ ''/'' @ ''randomized_freepool_internal.s'') = directory_of (out @ ''.go'')\<close>
    by (rule directory_of_output) simp_all
  have 2: \<open>directory_of (output_dir out @ ''/'' @ ''randomized_freepool_internal.go'') = directory_of (out @ ''.go'')\<close>
    by (rule directory_of_output) simp_all
  have 3: \<open>directory_of (output_dir out @ ''/'' @ ''randomized_freepool_internal.s'') = directory_of (out @ ''_race.go'')\<close>
    by (rule directory_of_output) simp_all
  have 4: \<open>directory_of (output_dir out @ ''/'' @ ''randomized_freepool_internal.go'') = directory_of (out @ ''_race.go'')\<close>
    by (rule directory_of_output) simp_all
  from p 1 2 3 4 have \<open>directory_of p = directory_of (out @ ''.go'')\<close>
    \<open>directory_of p = directory_of (out @ ''_race.go'')\<close>
    by auto
  moreover from p have \<open>CHR ''/'' \<notin> set out \<longrightarrow>
            p = ''./randomized_freepool_internal.s'' \<or> p = ''./randomized_freepool_internal.go''\<close>
    by (auto simp: output_dir_cases)
  moreover from p have \<open>CHR ''/'' \<in> set out \<longrightarrow>
            p = dirname out @ ''/randomized_freepool_internal.s''
            \<or> p = dirname out @ ''/randomized_freepool_internal.go''\<close>
    by (auto simp: output_dir_cases)
  ultimately show ?thesis by blast
qed

theorem auxiliary_files_beside_the_pool_sources_witness:
  \<open>(''./randomized_freepool_internal.s'', stub_text)
      \<in> set (writes (snd (main env_ok [''gen.py'', ''--package=p'', ''--output=pool''])))
   \<and> directory_of ''./randomized_freepool_internal.s'' = directory_of ''pool.go''
   \<and> (''d/randomized_freepool_internal.go'', glue_text ''p'')
      \<in> set (writes (snd (main env_ok [''gen.py'', ''--package=p'', ''--output=d//x''])))
   \<and> dirname ''d//x'' = ''d''
   \<and> directory_of ''d/randomized_freepool_internal.go'' = directory_of ''d//x_race.go''\<close>
proof -
  have h1: \<open>(''./randomized_freepool_internal.s'', stub_text)
      \<in> set (writes (snd (main env_ok [''gen.py'', ''--package=p'', ''--output=pool''])))\<close>
    by (simp add: run_defs env_ok_def)
  have h2: \<open>(''d/randomized_freepool_internal.go'', glue_text ''p'')
      \<in> set (writes (snd (main env_ok [''gen.py'', ''--package=p'', ''--output=d//x''])))\<close>
    by (simp add: run_defs env_ok_def)
  have s1: \<open>supplied ''--output='' (drop 1 [''gen.py'', ''--package=p'', ''--output=pool'']) = Some ''pool''\<close>
    and s2: \<open>supplied ''--output='' (drop 1 [''gen.py'', ''--package=p'', ''--output=d//x'']) = Some ''d//x''\<close>
    by (simp_all add: supplied_def startswith_def re_match_def nl_def)
  have d: \<open>dirname ''d//x'' = ''d''\<close>
    by (simp add: dirname_def rfind_def rstrip_sep_def)
  have a: \<open>directory_of ''./randomized_freepool_internal.s'' = directory_of ''pool.go''\<close>
    using auxiliary_files_beside_the_pool_sources[OF h1 s1, THEN conjunct2, THEN conjunct2, THEN conjunct1]
    by simp
  have b: \<open>directory_of ''d/randomized_freepool_internal.go'' = directory_of ''d//x_race.go''\<close>
    using auxiliary_files_beside_the_pool_sources[OF h2 s2, THEN conjunct2, THEN conjunct2, THEN conjunct2]
    by simp
  from h1 h2 d a b show ?thesis by blast
qed

section \<open>The files of a successful invocation\<close>











end
